theory Spec2Isabelle
  imports Main
begin

section \<open>Python strings\<close>

text \<open>
  A Python \<open>str\<close> is a sequence of Unicode code points: \<open>len\<close> counts code points and
  \<open>s[:300]\<close> keeps the first 300 of them. A string is therefore a list of code points
  (natural numbers), not a list of bytes.
\<close>

type_synonym pystr = "nat list"

definition ascii :: "string \<Rightarrow> pystr" where
  "ascii s = map of_char s"

definition AMP :: nat where "AMP = 38"
definition LT :: nat where "LT = 60"
definition GT :: nat where "GT = 62"
definition DQUOTE :: nat where "DQUOTE = 34"
definition SQUOTE :: nat where "SQUOTE = 39"

text \<open>The ellipsis mark U+2026 appended by the truncation.\<close>

definition ELLIPSIS :: nat where "ELLIPSIS = 8230"

subsection \<open>\<open>re.sub(r"<[^>]+>", "", s)\<close>\<close>

text \<open>
  The pattern matches a \<open><\<close>, then the longest non-empty run of characters other than
  \<open>>\<close> (the class \<open>[^>]\<close> also matches \<open><\<close> and newlines), then a \<open>>\<close>. Scanning
  goes left to right; a match is deleted and scanning resumes behind it; where no match starts
  the character is kept. A \<open><\<close> starts no match when it is directly followed by \<open>>\<close>, or
  when no \<open>>\<close> follows at all.
\<close>

function strip_tags :: "pystr \<Rightarrow> pystr" where
  "strip_tags [] = []"
| "strip_tags (c # cs) =
     (if c = LT \<and> takeWhile (\<lambda>x. x \<noteq> GT) cs \<noteq> [] \<and> dropWhile (\<lambda>x. x \<noteq> GT) cs \<noteq> []
      then strip_tags (tl (dropWhile (\<lambda>x. x \<noteq> GT) cs))
      else c # strip_tags cs)"
  by pat_completeness auto
termination
proof (relation "measure length")
  show "wf (measure length)" by simp
next
  fix c :: nat and cs :: pystr
  have "length (tl (dropWhile (\<lambda>x. x \<noteq> GT) cs)) \<le> length cs"
    using length_dropWhile_le [of "\<lambda>x. x \<noteq> GT" cs] by simp
  then show "(tl (dropWhile (\<lambda>x. x \<noteq> GT) cs), c # cs) \<in> measure length"
    by simp
next
  fix c :: nat and cs :: pystr
  show "(cs, c # cs) \<in> measure length" by simp
qed

subsection \<open>\<open>str.strip()\<close>\<close>

text \<open>
  Without an argument \<open>strip\<close> removes leading and trailing whitespace, where whitespace is
  what \<open>str.isspace\<close> accepts: the code points listed in CPython's
  \<open>_PyUnicode_IsWhitespace\<close>.
\<close>

definition py_isspace :: "nat \<Rightarrow> bool" where
  "py_isspace c \<longleftrightarrow>
     (9 \<le> c \<and> c \<le> 13) \<or> (28 \<le> c \<and> c \<le> 32) \<or> c = 133 \<or> c = 160 \<or> c = 5760 \<or>
     (8192 \<le> c \<and> c \<le> 8202) \<or> c = 8232 \<or> c = 8233 \<or> c = 8239 \<or> c = 8287 \<or> c = 12288"

definition strip :: "pystr \<Rightarrow> pystr" where
  "strip s = rev (dropWhile py_isspace (rev (dropWhile py_isspace s)))"

subsection \<open>\<open>html.escape\<close>\<close>

text \<open>
  \<open>html.escape(s)\<close> (with its default \<open>quote=True\<close>) is five successive
  \<open>str.replace\<close> calls, the ampersand first.
\<close>

definition replace :: "nat \<Rightarrow> pystr \<Rightarrow> pystr \<Rightarrow> pystr" where
  "replace old new s = concat (map (\<lambda>x. if x = old then new else [x]) s)"

definition escape :: "pystr \<Rightarrow> pystr" where
  "escape s =
     replace SQUOTE (ascii ''&#x27;'')
       (replace DQUOTE (ascii ''&quot;'')
          (replace GT (ascii ''&gt;'')
             (replace LT (ascii ''&lt;'')
                (replace AMP (ascii ''&amp;'') s))))"

section \<open>The fetcher\<close>

datatype py_error = AttributeError string | LibraryError string

text \<open>
  A feed entry as \<open>feedparser\<close> hands it over: every attribute may be missing (reading a
  missing one raises \<open>AttributeError\<close>), and \<open>published_parsed\<close> may be present with the
  value \<open>None\<close>. A time tuple is the list of its integers.
\<close>

record entry =
  entry_title :: "pystr option"
  entry_link :: "pystr option"
  entry_published_parsed :: "int list option option"
  entry_published :: "pystr option"
  entry_summary :: "pystr option"

text \<open>The dictionary built for each entry, with its four keys as fields.\<close>

record article =
  title :: pystr
  link :: pystr
  published :: pystr
  summary :: pystr

text \<open>
  The library calls whose code is not part of the program are parameters:
  \<open>urllib.parse.quote\<close>; \<open>feedparser.parse\<close>, which answers a URL with the entries of the
  feed or raises; and \<open>datetime(*parts).strftime(fmt)\<close>, which answers the six leading
  fields of a time tuple and a format with the text, or \<open>None\<close> when the constructor or
  the formatting raises.
\<close>

record pylib =
  quote :: "pystr \<Rightarrow> pystr"
  parse :: "pystr \<Rightarrow> py_error + entry list"
  datetime_strftime :: "int list \<Rightarrow> pystr \<Rightarrow> pystr option"

text \<open>
  The format string of the \<open>strftime\<close> call: \<open>%Y\<close>, U+5E74, \<open>%m\<close>, U+6708, \<open>%d\<close>,
  U+65E5, a space, \<open>%H:%M\<close>.
\<close>

definition date_format :: pystr where
  "date_format = [37, 89, 24180, 37, 109, 26376, 37, 100, 26085, 32, 37, 72, 58, 37, 77]"

text \<open>The nine code points of the placeholder shown for an entry without summary text.\<close>

definition no_summary :: pystr where
  "no_summary = [35201, 32004, 12399, 12354, 12426, 12414, 12379, 12435, 12290]"

definition request_url :: "pylib \<Rightarrow> pystr \<Rightarrow> pystr" where
  "request_url lib query =
     ascii ''https://news.google.com/rss/search'' @ ascii ''?q='' @ quote lib query
       @ ascii ''&hl=ja&gl=JP&ceid=JP:ja''"

text \<open>\<open>getattr(entry, "published", "")\<close>, which is also what the \<open>elif\<close> branch yields.\<close>

definition raw_published :: "entry \<Rightarrow> pystr" where
  "raw_published e = (case entry_published e of Some p \<Rightarrow> p | None \<Rightarrow> [])"

text \<open>
  The test \<open>hasattr(entry, "published_parsed") and entry.published_parsed\<close>: it yields the
  time tuple when the attribute exists and is truthy, that is neither \<open>None\<close> nor an empty
  tuple.
\<close>

definition structured_time :: "entry \<Rightarrow> int list option" where
  "structured_time e =
     (case entry_published_parsed e of
        Some (Some t) \<Rightarrow> if t \<noteq> [] then Some t else None
      | _ \<Rightarrow> None)"

text \<open>The date block: format the six leading fields, and on any exception take the raw text.\<close>

definition published_of :: "pylib \<Rightarrow> entry \<Rightarrow> pystr" where
  "published_of lib e =
     (case structured_time e of
        Some t \<Rightarrow>
          (case datetime_strftime lib (take 6 t) date_format of
             Some s \<Rightarrow> s
           | None \<Rightarrow> raw_published e)
      | None \<Rightarrow> raw_published e)"

text \<open>\<open>getattr(entry, "summary", "")\<close>.\<close>

definition raw_summary :: "entry \<Rightarrow> pystr" where
  "raw_summary e = (case entry_summary e of Some s \<Rightarrow> s | None \<Rightarrow> [])"

text \<open>The summary text before escaping: tags removed, trimmed, cut at 300 characters.\<close>

definition summary_text :: "entry \<Rightarrow> pystr" where
  "summary_text e =
     (let s = strip (strip_tags (raw_summary e))
      in if length s > 300 then take 300 s @ [ELLIPSIS] else s)"

definition safe_summary :: "entry \<Rightarrow> pystr" where
  "safe_summary e = (if summary_text e \<noteq> [] then escape (summary_text e) else no_summary)"

text \<open>
  One pass of the loop body. \<open>entry.title\<close> is read first and \<open>entry.link\<close> when the
  dictionary is built; neither has a default.
\<close>

definition loop_body :: "pylib \<Rightarrow> entry \<Rightarrow> py_error + article" where
  "loop_body lib e =
     (let published = published_of lib e; safe_summary = safe_summary e in
      case entry_title e of
        None \<Rightarrow> Inl (AttributeError ''title'')
      | Some t \<Rightarrow>
          (let safe_title = escape t in
           case entry_link e of
             None \<Rightarrow> Inl (AttributeError ''link'')
           | Some l \<Rightarrow>
               Inr \<lparr>title = safe_title, link = l, published = published,
                    summary = safe_summary\<rparr>))"

fun loop :: "pylib \<Rightarrow> entry list \<Rightarrow> article list \<Rightarrow> py_error + article list" where
  "loop lib [] articles = Inr articles"
| "loop lib (e # es) articles =
     (case loop_body lib e of
        Inl err \<Rightarrow> Inl err
      | Inr a \<Rightarrow> loop lib es (articles @ [a]))"

text \<open>
  The slice \<open>entries[:num]\<close>: a negative \<open>num\<close> counts from the end, as Python slices do.
\<close>

definition slice_to :: "'a list \<Rightarrow> int \<Rightarrow> 'a list" where
  "slice_to xs num =
     (if num < 0 then take (nat (int (length xs) + num)) xs else take (nat num) xs)"

definition fetch_news :: "pylib \<Rightarrow> pystr \<Rightarrow> int \<Rightarrow> py_error + (article list \<times> pystr)" where
  "fetch_news lib query num =
     (let url = request_url lib query in
      case parse lib url of
        Inl err \<Rightarrow> Inl err
      | Inr entries \<Rightarrow>
          (case loop lib (slice_to entries num) [] of
             Inl err \<Rightarrow> Inl err
           | Inr articles \<Rightarrow> Inr (articles, url)))"

section \<open>The page script\<close>

text \<open>
  The script runs top to bottom on every interaction. What the browser contributes to one
  run are the answers of the widgets: the content of the text field, given the \<open>value\<close>
  argument it is created with; the position of the slider; and, for each button label,
  whether that button was pressed. The session state is a dictionary that survives from
  run to run. Styling, the header, the three badges and the clock are left out.
\<close>

type_synonym session_state = "string \<rightharpoonup> pystr"

record widgets =
  text_input :: "pystr \<Rightarrow> pystr"
  slider :: int
  button :: "pystr \<Rightarrow> bool"

text \<open>\<open>st.session_state.pop(key, default)\<close>: the entry is removed when it is read.\<close>

definition pop :: "session_state \<Rightarrow> string \<Rightarrow> pystr \<Rightarrow> pystr \<times> session_state" where
  "pop st key dflt = (case st key of None \<Rightarrow> (dflt, st) | Some v \<Rightarrow> (v, st(key := None)))"

definition tag_LLM :: pystr where
  "tag_LLM = ascii ''LLM''"

text \<open>The six labels; all but \<open>ChatGPT\<close> and \<open>LLM\<close> are written in Japanese script.\<close>

definition quick_tags :: "pystr list" where
  "quick_tags =
     [ascii ''ChatGPT'', [29983, 25104, 65, 73], tag_LLM, [27231, 26800, 23398, 32722],
      [12525, 12508, 12486, 12451, 12463, 12473], [33258, 21205, 36939, 36578]]"

text \<open>
  The button loop: the first label whose button reports a press is stored under
  \<open>quick_query\<close> and \<open>st.rerun()\<close> abandons the run; \<open>None\<close> means that the loop ran to
  its end.
\<close>

fun tag_loop :: "widgets \<Rightarrow> pystr list \<Rightarrow> session_state \<Rightarrow> session_state option" where
  "tag_loop w [] st = None"
| "tag_loop w (tag # tags) st =
     (if button w tag then Some (st(''quick_query'' \<mapsto> tag)) else tag_loop w tags st)"

datatype column = Left | Right

datatype body = Cards "(column \<times> pystr) list" | EmptyState

text \<open>
  The markup of one card, the adjacent f-strings joined. The date line carries U+1F5D3
  U+FE0F, the link text U+1F4D6 and six Japanese characters.
\<close>

definition card :: "article \<Rightarrow> pystr" where
  \<open>card a =
     ascii ''<div class="news-card">''
     @ ascii ''  <div class="card-title">'' @ title a @ ascii ''</div>''
     @ ascii ''  <div class="card-date">'' @ [128467, 65039, 32] @ published a @ ascii ''</div>''
     @ ascii ''  <div class="card-summary">'' @ summary a @ ascii ''</div>''
     @ ascii ''  <div class="card-link">''
     @ ascii ''    <a href="'' @ link a @ ascii ''" target="_blank">''
     @ [128214, 32, 20803, 35352, 20107, 12434, 35501, 12416] @ ascii ''</a>''
     @ ascii ''  </div>''
     @ ascii ''</div>''\<close>

text \<open>The card loop over \<open>enumerate(articles)\<close>: each card with the column it is written to.\<close>

fun card_loop :: "nat \<Rightarrow> article list \<Rightarrow> (column \<times> pystr) list" where
  "card_loop idx [] = []"
| "card_loop idx (a # as) =
     (if idx mod 2 = 0 then Left else Right, card a) # card_loop (Suc idx) as"

definition render :: "article list \<Rightarrow> body" where
  "render articles = (if articles \<noteq> [] then Cards (card_loop 0 articles) else EmptyState)"

text \<open>The main area: fetch, then render; an exception of the fetch ends the run.\<close>

definition main_content :: "pylib \<Rightarrow> pystr \<Rightarrow> int \<Rightarrow> py_error + body" where
  "main_content lib query num_articles =
     (case fetch_news lib query num_articles of
        Inl err \<Rightarrow> Inl err
      | Inr (articles, _) \<Rightarrow> Inr (render articles))"

text \<open>
  One run of the script. It either ends in \<open>st.rerun()\<close>, or it fetches with the query and
  the count read from the sidebar and renders.
\<close>

datatype outcome =
    Rerun session_state
  | Rendered session_state pystr int "py_error + body"

definition script :: "pylib \<Rightarrow> widgets \<Rightarrow> session_state \<Rightarrow> outcome" where
  "script lib w st =
     (let (default_query, st1) = pop st ''quick_query'' (ascii ''Artificial Intelligence'');
          query = text_input w default_query;
          num_articles = slider w
      in case tag_loop w quick_tags st1 of
           Some st2 \<Rightarrow> Rerun st2
         | None \<Rightarrow>
             Rendered st1 query num_articles (main_content lib query num_articles))"

section \<open>Fixed feeds and widgets for the examples\<close>

text \<open>
  A library whose parser answers every URL with the same entries, whose \<open>quote\<close> leaves
  the query as it is, and whose date formatting is handed in.
\<close>

definition fake_lib :: "entry list \<Rightarrow> (int list \<Rightarrow> pystr \<Rightarrow> pystr option) \<Rightarrow> pylib" where
  "fake_lib entries fmt =
     \<lparr>quote = (\<lambda>s. s), parse = (\<lambda>url. Inr entries), datetime_strftime = fmt\<rparr>"

definition no_dates :: "int list \<Rightarrow> pystr \<Rightarrow> pystr option" where
  "no_dates parts fmt = None"

text \<open>
  A formatter that knows one date, 5 January 2024 09:03, and raises on everything else, as
  the constructor does on the second 61.
\<close>

definition one_date :: "int list \<Rightarrow> pystr \<Rightarrow> pystr option" where
  "one_date parts fmt =
     (if parts = [2024, 1, 5, 9, 3, 0] \<and> fmt = date_format
      then Some [50, 48, 50, 52, 24180, 48, 49, 26376, 48, 53, 26085, 32, 48, 57, 58, 48, 51]
      else None)"

definition plain_entry :: "string \<Rightarrow> entry" where
  "plain_entry t =
     \<lparr>entry_title = Some (ascii t), entry_link = Some (ascii ''http://n.example/1''),
      entry_published_parsed = None, entry_published = None, entry_summary = None\<rparr>"

definition plain_article :: "string \<Rightarrow> article" where
  "plain_article t =
     \<lparr>title = ascii t, link = ascii ''http://n.example/1'', published = [],
      summary = no_summary\<rparr>"

definition three_entries :: "entry list" where
  "three_entries = [plain_entry ''first'', plain_entry ''second'', plain_entry ''third'']"

definition two_articles :: "article list" where
  "two_articles = [plain_article ''first'', plain_article ''second'']"

text \<open>An entry with a given summary, and the article it becomes with a given summary field.\<close>

definition entry_with_summary :: "pystr \<Rightarrow> entry" where
  "entry_with_summary s = (plain_entry ''t'')\<lparr>entry_summary := Some s\<rparr>"

definition article_with_summary :: "pystr \<Rightarrow> article" where
  "article_with_summary s = (plain_article ''t'')\<lparr>summary := s\<rparr>"

definition markup_entry :: entry where
  "markup_entry =
     (plain_entry ''<b>x</b>'')\<lparr>entry_summary := Some (ascii ''<i>y</i> & <z'')\<rparr>"

definition markup_article :: article where
  "markup_article =
     \<lparr>title = ascii ''&lt;b&gt;x&lt;/b&gt;'', link = ascii ''http://n.example/1'',
      published = [], summary = ascii ''y &amp; &lt;z''\<rparr>"

definition untitled_entry :: entry where
  "untitled_entry = (plain_entry ''t'')\<lparr>entry_title := None\<rparr>"

text \<open>Four entries, one for each way the published field comes about.\<close>

definition dated_entries :: "entry list" where
  "dated_entries =
     [(plain_entry ''a'')\<lparr>entry_published_parsed := Some (Some [2024, 1, 5, 9, 3, 0, 4, 5, 0]),
        entry_published := Some (ascii ''Fri, 05 Jan 2024 09:03:00 GMT'')\<rparr>,
      (plain_entry ''b'')\<lparr>entry_published_parsed := Some (Some [2024, 1, 5, 9, 3, 61, 4, 5, 0]),
        entry_published := Some (ascii ''Fri, 05 Jan 2024 09:03:61 GMT'')\<rparr>,
      (plain_entry ''c'')\<lparr>entry_published_parsed := Some None,
        entry_published := Some (ascii ''yesterday'')\<rparr>,
      plain_entry ''d'']"

definition odd_link_entry :: entry where
  \<open>odd_link_entry = (plain_entry ''t'')\<lparr>entry_link := Some (ascii ''x" onclick="f(1)&<'')\<rparr>\<close>

definition odd_link_article :: article where
  \<open>odd_link_article = (plain_article ''t'')\<lparr>link := ascii ''x" onclick="f(1)&<''\<rparr>\<close>

text \<open>The articles that the four dated entries become under \<open>one_date\<close>.\<close>

definition dated_articles :: "article list" where
  "dated_articles =
     [(plain_article ''a'')\<lparr>published :=
         [50, 48, 50, 52, 24180, 48, 49, 26376, 48, 53, 26085, 32, 48, 57, 58, 48, 51]\<rparr>,
      (plain_article ''b'')\<lparr>published := ascii ''Fri, 05 Jan 2024 09:03:61 GMT''\<rparr>,
      (plain_article ''c'')\<lparr>published := ascii ''yesterday''\<rparr>,
      plain_article ''d'']"

text \<open>Widgets of a run in which no button is pressed and the field shows its value.\<close>

definition idle_widgets :: widgets where
  "idle_widgets = \<lparr>text_input = (\<lambda>v. v), slider = 15, button = (\<lambda>tag. False)\<rparr>"

text \<open>Widgets of a run in which the field holds an older text and \<open>LLM\<close> is pressed.\<close>

definition press_LLM :: widgets where
  "press_LLM =
     \<lparr>text_input = (\<lambda>v. ascii ''old text''), slider = 15, button = (\<lambda>tag. tag = tag_LLM)\<rparr>"

text \<open>The rewriting of one character by \<open>escape\<close>, used to reason about it.\<close>

definition escape_char :: "nat \<Rightarrow> pystr" where
  "escape_char c =
     (if c = AMP then ascii ''&amp;''
      else if c = LT then ascii ''&lt;''
      else if c = GT then ascii ''&gt;''
      else if c = DQUOTE then ascii ''&quot;''
      else if c = SQUOTE then ascii ''&#x27;''
      else [c])"

section \<open>Facts about the string functions\<close>

lemma replace_append: "replace old new (xs @ ys) = replace old new xs @ replace old new ys"
  by (simp add: replace_def)

lemma escape_Nil: "escape [] = []"
  by (simp add: escape_def replace_def)

lemma escape_single: "escape [c] = escape_char c"
  by (simp add: escape_def escape_char_def replace_def ascii_def AMP_def LT_def GT_def
      DQUOTE_def SQUOTE_def)

lemma escape_append: "escape (xs @ ys) = escape xs @ escape ys"
  by (simp add: escape_def replace_append)

lemma escape_Cons: "escape (c # cs) = escape_char c @ escape cs"
  using escape_append [of "[c]" cs] by (simp add: escape_single)

lemma length_escape_char: "length (escape_char c) \<le> 6"
  by (simp add: escape_char_def ascii_def)

lemma length_escape_le: "length (escape s) \<le> 6 * length s"
proof (induction s)
  case Nil
  show ?case by (simp add: escape_Nil)
next
  case (Cons c cs)
  have "length (escape (c # cs)) = length (escape_char c) + length (escape cs)"
    by (simp add: escape_Cons)
  also have "\<dots> \<le> 6 + 6 * length cs"
    using length_escape_char [of c] Cons.IH by linarith
  finally show ?case by simp
qed

lemma escape_char_no_angle: "LT \<notin> set (escape_char c) \<and> GT \<notin> set (escape_char c)"
  by (simp add: escape_char_def ascii_def AMP_def LT_def GT_def DQUOTE_def SQUOTE_def)

lemma escape_no_angle: "LT \<notin> set (escape s) \<and> GT \<notin> set (escape s)"
  by (induction s) (simp_all add: escape_Nil escape_Cons escape_char_no_angle)

lemma escape_ellipsis: "escape (s @ [ELLIPSIS]) = escape s @ [ELLIPSIS]"
  by (simp add: escape_append escape_single escape_char_def ELLIPSIS_def AMP_def LT_def GT_def
      DQUOTE_def SQUOTE_def)

lemma escape_plain: "\<forall>c\<in>set s. c \<notin> {AMP, LT, GT, DQUOTE, SQUOTE} \<Longrightarrow> escape s = s"
  by (induction s) (simp_all add: escape_Nil escape_Cons escape_char_def)

lemma length_summary_text: "length (summary_text e) \<le> 301"
  by (simp add: summary_text_def Let_def)

section \<open>Facts about the loop\<close>

lemma loop_body_Inr:
  "loop_body lib e = Inr a \<longleftrightarrow>
     (\<exists>t l. entry_title e = Some t \<and> entry_link e = Some l \<and>
        a = \<lparr>title = escape t, link = l, published = published_of lib e,
             summary = safe_summary e\<rparr>)"
  by (auto simp: loop_body_def Let_def split: option.splits)

lemma loop_Inr:
  "loop lib es acc = Inr arts \<longleftrightarrow>
     (\<exists>as. arts = acc @ as \<and> list_all2 (\<lambda>e a. loop_body lib e = Inr a) es as)"
proof (induction es arbitrary: acc)
  case Nil
  show ?case by auto
next
  case (Cons e es)
  show ?case
  proof (cases "loop_body lib e")
    case (Inl err)
    then show ?thesis by (auto simp: list_all2_Cons1)
  next
    case (Inr a)
    then show ?thesis by (auto simp: Cons.IH list_all2_Cons1)
  qed
qed

lemma fetch_news_Inr:
  "fetch_news lib query num = Inr (arts, url) \<longleftrightarrow>
     url = request_url lib query \<and>
     (\<exists>entries. parse lib (request_url lib query) = Inr entries \<and>
        list_all2 (\<lambda>e a. loop_body lib e = Inr a) (slice_to entries num) arts)"
proof (cases "parse lib (request_url lib query)")
  case (Inl err)
  then show ?thesis by (simp add: fetch_news_def Let_def)
next
  case (Inr entries)
  have "loop lib (slice_to entries num) [] = Inr arts \<longleftrightarrow>
        list_all2 (\<lambda>e a. loop_body lib e = Inr a) (slice_to entries num) arts"
    by (simp add: loop_Inr)
  with Inr show ?thesis
    by (cases "loop lib (slice_to entries num) []") (auto simp: fetch_news_def Let_def)
qed

section \<open>Facts about the fetch\<close>

lemma fetch_news_nth:
  assumes "fetch_news lib query num = Inr (arts, url)"
    and "parse lib (request_url lib query) = Inr entries"
  shows "length arts = length (slice_to entries num)"
    and "i < length arts \<Longrightarrow> loop_body lib (slice_to entries num ! i) = Inr (arts ! i)"
proof -
  from assms have *: "list_all2 (\<lambda>e a. loop_body lib e = Inr a) (slice_to entries num) arts"
    by (auto simp: fetch_news_Inr)
  from * show "length arts = length (slice_to entries num)"
    by (simp add: list_all2_lengthD)
  assume "i < length arts"
  with * show "loop_body lib (slice_to entries num ! i) = Inr (arts ! i)"
    using list_all2_nthD2 by fastforce
qed

lemma fetch_news_member:
  assumes "fetch_news lib query num = Inr (arts, url)" and "a \<in> set arts"
  shows "\<exists>e. loop_body lib e = Inr a"
proof -
  from assms(1) obtain entries
    where *: "list_all2 (\<lambda>e a. loop_body lib e = Inr a) (slice_to entries num) arts"
    by (auto simp: fetch_news_Inr)
  from assms(2) obtain i where "i < length arts" "arts ! i = a"
    by (auto simp: in_set_conv_nth)
  with * have "loop_body lib (slice_to entries num ! i) = Inr a"
    using list_all2_nthD2 by fastforce
  then show ?thesis ..
qed

lemma strip_tags_no_LT: "LT \<notin> set s \<Longrightarrow> strip_tags s = s"
  by (induction s) auto

lemma strip_id: "s \<noteq> [] \<Longrightarrow> \<not> py_isspace (hd s) \<Longrightarrow> \<not> py_isspace (last s) \<Longrightarrow> strip s = s"
proof -
  assume s: "s \<noteq> []" and h: "\<not> py_isspace (hd s)" and l: "\<not> py_isspace (last s)"
  from s h have 1: "dropWhile py_isspace s = s"
    by (cases s) simp_all
  from s l have "\<not> py_isspace (hd (rev s))"
    by (simp add: hd_rev)
  with s have 2: "dropWhile py_isspace (rev s) = rev s"
    by (cases "rev s") simp_all
  from 1 2 show ?thesis by (simp add: strip_def)
qed

lemma escape_replicate: "escape (replicate n c) = concat (replicate n (escape_char c))"
  by (induction n) (simp_all add: escape_Nil escape_Cons)

text \<open>Evaluating the fetch on the fixed feeds.\<close>

lemma length_concat_replicate: "length (concat (replicate n xs)) = n * length xs"
  by (induction n) simp_all

lemma length_ascii: "length (ascii s) = length s"
  by (simp add: ascii_def)

lemma strftime_fake: "datetime_strftime (fake_lib entries fmt) = fmt"
  by (simp add: fake_lib_def)

lemma quote_fake: "quote (fake_lib entries fmt) s = s"
  by (simp add: fake_lib_def)

lemmas fake_defs = strftime_fake plain_entry_def plain_article_def entry_with_summary_def
  article_with_summary_def no_dates_def

lemma parse_fake: "parse (fake_lib entries fmt) url = Inr entries"
  by (simp add: fake_lib_def)

lemma fetch_fake:
  "fetch_news (fake_lib entries fmt) query num =
     (case loop (fake_lib entries fmt) (slice_to entries num) [] of
        Inl err \<Rightarrow> Inl err
      | Inr articles \<Rightarrow> Inr (articles, request_url (fake_lib entries fmt) query))"
  by (simp add: fetch_news_def parse_fake Let_def)

lemma body_with_summary:
  "loop_body lib (entry_with_summary s) =
     Inr (article_with_summary (safe_summary (entry_with_summary s)))"
  by (simp add: loop_body_def fake_defs published_of_def structured_time_def raw_published_def
      escape_def replace_def ascii_def AMP_def LT_def GT_def DQUOTE_def SQUOTE_def)

lemma fetch_with_summary:
  "fetch_news (fake_lib [entry_with_summary s] fmt) query 20 =
     Inr ([article_with_summary (safe_summary (entry_with_summary s))],
          request_url (fake_lib [entry_with_summary s] fmt) query)"
  by (simp add: fetch_fake slice_to_def body_with_summary)

lemma summary_text_clean:
  assumes "LT \<notin> set s" "s \<noteq> []" "\<not> py_isspace (hd s)" "\<not> py_isspace (last s)"
  shows "summary_text (entry_with_summary s) =
           (if length s > 300 then take 300 s @ [ELLIPSIS] else s)"
  using assms
  by (simp add: summary_text_def raw_summary_def entry_with_summary_def plain_entry_def
      strip_tags_no_LT strip_id Let_def)

lemma safe_summary_amp:
  "safe_summary (entry_with_summary (replicate 61 AMP)) = concat (replicate 61 (ascii ''&amp;''))"
proof -
  have "summary_text (entry_with_summary (replicate 61 AMP)) = replicate 61 AMP"
    by (subst summary_text_clean) (simp_all add: AMP_def LT_def py_isspace_def)
  then show ?thesis
    by (simp add: safe_summary_def escape_replicate escape_char_def)
qed


lemma fetch_three:
  "fetch_news (fake_lib three_entries no_dates) tag_LLM 2
     = Inr (two_articles, request_url (fake_lib three_entries no_dates) tag_LLM)"
  by (simp add: fetch_fake slice_to_def three_entries_def two_articles_def loop_body_def
      fake_defs published_of_def structured_time_def raw_published_def safe_summary_def
      summary_text_def raw_summary_def strip_def escape_def replace_def ascii_def
      AMP_def LT_def GT_def DQUOTE_def SQUOTE_def)

section \<open>The claims\<close>

text \<open>
  C1, as the program has it: the summary field is the placeholder or the escaped form of a
  text of at most 301 characters (300 of the trimmed, tag-free text and the ellipsis mark).
  Escaping comes after the cut and writes up to six characters for one, so the field itself
  has at most 1801 characters.
\<close>

theorem summary_length_bound:
  assumes "fetch_news lib query num = Inr (articles, url)" and "a \<in> set articles"
  shows "length (summary a) \<le> 1801 \<and>
         (summary a = no_summary \<or> (\<exists>t. length t \<le> 301 \<and> summary a = escape t))"
proof -
  from fetch_news_member [OF assms] obtain e where "loop_body lib e = Inr a" ..
  then have s: "summary a = safe_summary e"
    by (auto simp: loop_body_Inr)
  show ?thesis
  proof (cases "summary_text e = []")
    case True
    with s show ?thesis by (simp add: safe_summary_def no_summary_def)
  next
    case False
    with s have eq: "summary a = escape (summary_text e)"
      by (simp add: safe_summary_def)
    let ?s = "strip (strip_tags (raw_summary e))"
    have "length (summary a) \<le> 1801"
    proof (cases "length ?s > 300")
      case True
      then have "summary a = escape (take 300 ?s) @ [ELLIPSIS]"
        using eq by (simp add: summary_text_def Let_def escape_ellipsis)
      moreover have "length (escape (take 300 ?s)) \<le> 6 * 300"
        using length_escape_le [of "take 300 ?s"] True by simp
      ultimately show ?thesis by simp
    next
      case False
      then have "length (summary_text e) \<le> 300"
        by (simp add: summary_text_def Let_def)
      then show ?thesis
        using length_escape_le [of "summary_text e"] eq by simp
    qed
    with eq length_summary_text [of e] show ?thesis by blast
  qed
qed

theorem summary_length_bound_witness:
  "fetch_news (fake_lib [entry_with_summary (replicate 61 AMP)] no_dates) tag_LLM 20
     = Inr ([article_with_summary (concat (replicate 61 (ascii ''&amp;'')))],
            request_url (fake_lib [entry_with_summary (replicate 61 AMP)] no_dates) tag_LLM) \<and>
   length (summary (article_with_summary (concat (replicate 61 (ascii ''&amp;''))))) \<le> 1801"
proof -
  let ?a = "article_with_summary (concat (replicate 61 (ascii ''&amp;'')))"
  have h1: "fetch_news (fake_lib [entry_with_summary (replicate 61 AMP)] no_dates) tag_LLM 20
      = Inr ([?a], request_url (fake_lib [entry_with_summary (replicate 61 AMP)] no_dates) tag_LLM)"
    by (simp add: fetch_with_summary safe_summary_amp)
  have h2: "?a \<in> set [?a]" by simp
  show ?thesis
    using h1 summary_length_bound [OF h1 h2] by simp
qed

text \<open>
  C1 as stated fails: a summary of 61 ampersands is not cut, and escaping turns it into 305
  characters.
\<close>

theorem summary_longer_than_301:
  "(case fetch_news (fake_lib [entry_with_summary (replicate 61 AMP)] no_dates) tag_LLM 20 of
      Inr (as, u) \<Rightarrow> map (\<lambda>a. length (summary a)) as
    | Inl err \<Rightarrow> []) = [305]"
  by (simp add: fetch_with_summary safe_summary_amp article_with_summary_def ascii_def
      length_concat_replicate)

text \<open>
  C2: in every article the fetch returns, neither the title nor the summary contains a
  \<open><\<close> or a \<open>>\<close>.
\<close>

theorem fetch_news_escapes_markup:
  assumes "fetch_news lib query num = Inr (articles, url)" and "a \<in> set articles"
  shows "LT \<notin> set (title a) \<and> GT \<notin> set (title a) \<and>
         LT \<notin> set (summary a) \<and> GT \<notin> set (summary a)"
proof -
  from fetch_news_member [OF assms] obtain e where "loop_body lib e = Inr a" ..
  then obtain t where t: "title a = escape t" and s: "summary a = safe_summary e"
    by (auto simp: loop_body_Inr)
  have "LT \<notin> set no_summary \<and> GT \<notin> set no_summary"
    by (simp add: no_summary_def LT_def GT_def)
  then have "LT \<notin> set (safe_summary e) \<and> GT \<notin> set (safe_summary e)"
    using escape_no_angle [of "summary_text e"] by (simp add: safe_summary_def)
  with t s show ?thesis
    using escape_no_angle [of t] by simp
qed

theorem fetch_news_escapes_markup_witness:
  "fetch_news (fake_lib [markup_entry] no_dates) tag_LLM 5
     = Inr ([markup_article], request_url (fake_lib [markup_entry] no_dates) tag_LLM) \<and>
   markup_article \<in> set [markup_article] \<and>
   LT \<notin> set (title markup_article) \<and> GT \<notin> set (title markup_article) \<and>
   LT \<notin> set (summary markup_article) \<and> GT \<notin> set (summary markup_article)"
proof -
  have h1: "fetch_news (fake_lib [markup_entry] no_dates) tag_LLM 5
      = Inr ([markup_article], request_url (fake_lib [markup_entry] no_dates) tag_LLM)"
    by (simp add: fetch_fake slice_to_def markup_entry_def markup_article_def loop_body_def
      fake_defs published_of_def structured_time_def raw_published_def safe_summary_def
      summary_text_def raw_summary_def strip_def py_isspace_def escape_def replace_def
      ascii_def AMP_def LT_def GT_def DQUOTE_def SQUOTE_def)
  have h2: "markup_article \<in> set [markup_article]" by simp
  show ?thesis
    using h1 h2 fetch_news_escapes_markup [OF h1 h2] by simp
qed


lemma loop_total:
  "\<forall>e\<in>set es. entry_title e \<noteq> None \<and> entry_link e \<noteq> None \<Longrightarrow>
     \<exists>as. loop lib es acc = Inr (acc @ as) \<and> length as = length es"
proof (induction es arbitrary: acc)
  case Nil
  show ?case by simp
next
  case (Cons e es)
  from Cons.prems obtain t l where "entry_title e = Some t" "entry_link e = Some l"
    by auto
  then obtain a where a: "loop_body lib e = Inr a"
    by (auto simp: loop_body_Inr)
  from Cons.prems have "\<forall>e\<in>set es. entry_title e \<noteq> None \<and> entry_link e \<noteq> None"
    by simp
  from Cons.IH [OF this, of "acc @ [a]"] obtain as
    where "loop lib es (acc @ [a]) = Inr ((acc @ [a]) @ as)" "length as = length es"
    by blast
  with a have "loop lib (e # es) acc = Inr (acc @ (a # as)) \<and> length (a # as) = length (e # es)"
    by simp
  then show ?case by blast
qed

text \<open>
  C3, as the program has it: when the parser returns a feed and every entry taken from it
  carries a title and a link, the fetch returns one article per entry together with the
  request URL; for a feed without entries that is the empty list.
\<close>

theorem fetch_news_returns:
  assumes "parse lib (request_url lib query) = Inr entries"
    and "\<forall>e\<in>set (slice_to entries num). entry_title e \<noteq> None \<and> entry_link e \<noteq> None"
  shows "\<exists>articles. fetch_news lib query num = Inr (articles, request_url lib query) \<and>
           length articles = length (slice_to entries num)"
proof -
  from loop_total [OF assms(2), of lib "[]"] obtain as
    where "loop lib (slice_to entries num) [] = Inr as" "length as = length (slice_to entries num)"
    by auto
  with assms(1) show ?thesis
    by (simp add: fetch_news_def Let_def)
qed

theorem fetch_news_returns_witness:
  "parse (fake_lib three_entries no_dates) (request_url (fake_lib three_entries no_dates) tag_LLM)
     = Inr three_entries \<and>
   list_all (\<lambda>e. entry_title e \<noteq> None \<and> entry_link e \<noteq> None) (slice_to three_entries 2) \<and>
   fetch_news (fake_lib three_entries no_dates) tag_LLM 2
     = Inr (two_articles, request_url (fake_lib three_entries no_dates) tag_LLM) \<and>
   fetch_news (fake_lib [] no_dates) tag_LLM 2
     = Inr ([], request_url (fake_lib [] no_dates) tag_LLM)"
proof -
  have h1: "parse (fake_lib three_entries no_dates)
      (request_url (fake_lib three_entries no_dates) tag_LLM) = Inr three_entries"
    by (simp add: parse_fake)
  have h2: "\<forall>e\<in>set (slice_to three_entries 2). entry_title e \<noteq> None \<and> entry_link e \<noteq> None"
    by (simp add: slice_to_def three_entries_def plain_entry_def)
  have h3: "parse (fake_lib [] no_dates) (request_url (fake_lib [] no_dates) tag_LLM) = Inr []"
    by (simp add: parse_fake)
  have h4: "\<forall>e\<in>set (slice_to [] 2). entry_title e \<noteq> None \<and> entry_link e \<noteq> None"
    by (simp add: slice_to_def)
  show ?thesis
    using h1 h2 fetch_news_returns [OF h1 h2] fetch_news_returns [OF h3 h4]
    by (simp add: fetch_three list_all_iff slice_to_def)
qed

text \<open>
  C3 as stated fails: an entry without a title makes the fetch raise \<open>AttributeError\<close>.
\<close>

theorem fetch_news_raises:
  "fetch_news (fake_lib [untitled_entry] no_dates) tag_LLM 15 = Inl (AttributeError ''title'')"
  by (simp add: fetch_fake slice_to_def untitled_entry_def loop_body_def plain_entry_def)

lemma safe_summary_long:
  "safe_summary (entry_with_summary (replicate 301 97)) = replicate 300 97 @ [ELLIPSIS]"
proof -
  have "summary_text (entry_with_summary (replicate 301 97)) = replicate 300 97 @ [ELLIPSIS]"
    by (subst summary_text_clean) (simp_all add: LT_def py_isspace_def)
  moreover have "escape (replicate 300 97) = replicate 300 97"
    by (rule escape_plain) (simp add: AMP_def LT_def GT_def DQUOTE_def SQUOTE_def)
  ultimately show ?thesis
    by (simp add: safe_summary_def escape_ellipsis)
qed

lemma safe_summary_tagged:
  "safe_summary (entry_with_summary (ascii ''<b>'' @ replicate 298 97)) = replicate 298 97"
proof -
  have "strip_tags (ascii ''<b>'' @ replicate 298 97) = strip_tags (replicate 298 97)"
    by (simp add: ascii_def LT_def GT_def)
  also have "\<dots> = replicate 298 97"
    by (rule strip_tags_no_LT) (simp add: LT_def)
  finally have "strip (strip_tags (ascii ''<b>'' @ replicate 298 97)) = replicate 298 97"
    by (simp add: strip_id py_isspace_def)
  then have "summary_text (entry_with_summary (ascii ''<b>'' @ replicate 298 97))
      = replicate 298 97"
    by (simp add: summary_text_def raw_summary_def entry_with_summary_def plain_entry_def)
  moreover have "escape (replicate 298 97) = replicate 298 97"
    by (rule escape_plain) (simp add: AMP_def LT_def GT_def DQUOTE_def SQUOTE_def)
  ultimately show ?thesis
    by (simp add: safe_summary_def)
qed

text \<open>
  C4, as the program has it: when the summary of an entry, with its tags removed and
  trimmed, is longer than 300 characters, the summary field of its article ends with the
  ellipsis mark.
\<close>

theorem long_summary_ends_with_ellipsis:
  assumes "fetch_news lib query num = Inr (articles, url)"
    and "parse lib (request_url lib query) = Inr entries"
    and "i < length articles"
    and "length (strip (strip_tags (raw_summary (slice_to entries num ! i)))) > 300"
  shows "summary (articles ! i) \<noteq> [] \<and> last (summary (articles ! i)) = ELLIPSIS"
proof -
  let ?e = "slice_to entries num ! i"
  from fetch_news_nth(2) [OF assms(1,2,3)]
  have "summary (articles ! i) = safe_summary ?e"
    by (auto simp: loop_body_Inr)
  moreover from assms(4)
  have "summary_text ?e = take 300 (strip (strip_tags (raw_summary ?e))) @ [ELLIPSIS]"
    by (simp add: summary_text_def Let_def)
  ultimately have "summary (articles ! i)
      = escape (take 300 (strip (strip_tags (raw_summary ?e)))) @ [ELLIPSIS]"
    by (simp add: safe_summary_def escape_ellipsis)
  then show ?thesis by simp
qed

theorem long_summary_ends_with_ellipsis_witness:
  "fetch_news (fake_lib [entry_with_summary (replicate 301 97)] no_dates) tag_LLM 20
     = Inr ([article_with_summary (replicate 300 97 @ [ELLIPSIS])],
            request_url (fake_lib [entry_with_summary (replicate 301 97)] no_dates) tag_LLM) \<and>
   length (strip (strip_tags (raw_summary (entry_with_summary (replicate 301 97))))) > 300 \<and>
   last (summary (article_with_summary (replicate 300 97 @ [ELLIPSIS]))) = ELLIPSIS"
proof -
  let ?L = "fake_lib [entry_with_summary (replicate 301 97)] no_dates"
  let ?a = "article_with_summary (replicate 300 97 @ [ELLIPSIS])"
  have h1: "fetch_news ?L tag_LLM 20 = Inr ([?a], request_url ?L tag_LLM)"
    by (simp add: fetch_with_summary safe_summary_long)
  have h2: "parse ?L (request_url ?L tag_LLM) = Inr [entry_with_summary (replicate 301 97)]"
    by (simp add: parse_fake)
  have h3: "0 < length [?a]" by simp
  have "strip (strip_tags (raw_summary (entry_with_summary (replicate 301 97))))
      = replicate 301 97"
    by (simp add: raw_summary_def entry_with_summary_def plain_entry_def strip_tags_no_LT
        strip_id LT_def py_isspace_def)
  then have h4: "length (strip (strip_tags (raw_summary
      (slice_to [entry_with_summary (replicate 301 97)] 20 ! 0)))) > 300"
    by (simp add: slice_to_def)
  show ?thesis
    using h1 h4 long_summary_ends_with_ellipsis [OF h1 h2 h3 h4]
    by (simp add: slice_to_def)
qed

text \<open>
  C4 as stated fails: a summary of 301 characters, three of them a tag, is shown whole and
  without the mark.
\<close>

theorem long_source_without_ellipsis:
  "length (ascii ''<b>'' @ replicate 298 97) = 301 \<and>
   (case fetch_news (fake_lib [entry_with_summary (ascii ''<b>'' @ replicate 298 97)] no_dates)
           tag_LLM 20 of
      Inr (as, u) \<Rightarrow> map summary as
    | Inl err \<Rightarrow> []) = [replicate 298 97] \<and>
   last (replicate 298 97) \<noteq> ELLIPSIS"
  by (simp add: fetch_with_summary safe_summary_tagged article_with_summary_def length_ascii
      ELLIPSIS_def)

text \<open>
  C6: for a count that is not negative the fetch returns as many articles as the feed has
  entries, but no more than the count, and the article at each position is the one made
  from the entry at that position.
\<close>

theorem fetch_news_takes_limit:
  assumes "parse lib (request_url lib query) = Inr entries"
    and "0 \<le> num"
    and "fetch_news lib query num = Inr (articles, url)"
  shows "length articles = min (nat num) (length entries) \<and>
         (\<forall>i<length articles. loop_body lib (entries ! i) = Inr (articles ! i))"
proof -
  from assms(2) have s: "slice_to entries num = take (nat num) entries"
    by (simp add: slice_to_def)
  have len: "length articles = min (nat num) (length entries)"
    using fetch_news_nth(1) [OF assms(3) assms(1)] by (simp add: s min.commute)
  have "loop_body lib (entries ! i) = Inr (articles ! i)" if "i < length articles" for i
    using fetch_news_nth(2) [OF assms(3) assms(1) that] that len by (simp add: s)
  with len show ?thesis by simp
qed

theorem fetch_news_takes_limit_witness:
  "parse (fake_lib three_entries no_dates) (request_url (fake_lib three_entries no_dates) tag_LLM)
     = Inr three_entries \<and> (0::int) \<le> 2 \<and>
   fetch_news (fake_lib three_entries no_dates) tag_LLM 2
     = Inr (two_articles, request_url (fake_lib three_entries no_dates) tag_LLM) \<and>
   length two_articles = 2 \<and>
   loop_body (fake_lib three_entries no_dates) (three_entries ! 0) = Inr (two_articles ! 0) \<and>
   loop_body (fake_lib three_entries no_dates) (three_entries ! 1) = Inr (two_articles ! 1)"
proof -
  have h1: "parse (fake_lib three_entries no_dates)
      (request_url (fake_lib three_entries no_dates) tag_LLM) = Inr three_entries"
    by (simp add: parse_fake)
  have h2: "(0::int) \<le> 2" by simp
  have len: "length two_articles = 2"
    by (simp add: two_articles_def)
  from fetch_news_takes_limit [OF h1 h2 fetch_three]
  have "\<forall>i<length two_articles.
      loop_body (fake_lib three_entries no_dates) (three_entries ! i) = Inr (two_articles ! i)"
    by simp
  with len have "loop_body (fake_lib three_entries no_dates) (three_entries ! 0)
        = Inr (two_articles ! 0)"
    and "loop_body (fake_lib three_entries no_dates) (three_entries ! 1)
        = Inr (two_articles ! 1)"
    by simp_all
  with h1 len show ?thesis
    by (simp add: fetch_three)
qed

lemma published_nth:
  assumes "fetch_news lib query num = Inr (articles, url)"
    and "parse lib (request_url lib query) = Inr entries"
    and "i < length articles"
  shows "published (articles ! i) = published_of lib (slice_to entries num ! i)"
  using fetch_news_nth(2) [OF assms] by (auto simp: loop_body_Inr)

text \<open>
  C5: the published field of the article made from an entry is the formatted time when the
  entry has a structured time and formatting it succeeds; the raw text of the entry, or the
  empty string when there is none, when formatting fails; the raw text when there is no
  structured time; and the empty string when there is neither.
\<close>

theorem published_derivation:
  assumes "fetch_news lib query num = Inr (articles, url)"
    and "parse lib (request_url lib query) = Inr entries"
    and "i < length articles"
  shows "(\<forall>t s. structured_time (slice_to entries num ! i) = Some t \<and>
             datetime_strftime lib (take 6 t) date_format = Some s \<longrightarrow>
             published (articles ! i) = s) \<and>
         (\<forall>t. structured_time (slice_to entries num ! i) = Some t \<and>
             datetime_strftime lib (take 6 t) date_format = None \<longrightarrow>
             published (articles ! i) =
               (case entry_published (slice_to entries num ! i) of Some r \<Rightarrow> r | None \<Rightarrow> [])) \<and>
         (\<forall>r. structured_time (slice_to entries num ! i) = None \<and>
             entry_published (slice_to entries num ! i) = Some r \<longrightarrow>
             published (articles ! i) = r) \<and>
         (structured_time (slice_to entries num ! i) = None \<and>
             entry_published (slice_to entries num ! i) = None \<longrightarrow>
             published (articles ! i) = [])"
  by (simp add: published_nth [OF assms] published_of_def raw_published_def)


lemma fetch_dated:
  "fetch_news (fake_lib dated_entries one_date) tag_LLM 15
     = Inr (dated_articles, request_url (fake_lib dated_entries one_date) tag_LLM)"
  by (simp add: fetch_fake slice_to_def dated_entries_def dated_articles_def loop_body_def
      strftime_fake plain_entry_def plain_article_def one_date_def date_format_def
      published_of_def structured_time_def raw_published_def safe_summary_def
      summary_text_def raw_summary_def strip_def escape_def replace_def ascii_def
      AMP_def LT_def GT_def DQUOTE_def SQUOTE_def)

theorem published_derivation_witness:
  "fetch_news (fake_lib dated_entries one_date) tag_LLM 15
     = Inr (dated_articles, request_url (fake_lib dated_entries one_date) tag_LLM) \<and>
   structured_time (dated_entries ! 0) = Some [2024, 1, 5, 9, 3, 0, 4, 5, 0] \<and>
   one_date (take 6 [2024, 1, 5, 9, 3, 0, 4, 5, 0]) date_format
     = Some [50, 48, 50, 52, 24180, 48, 49, 26376, 48, 53, 26085, 32, 48, 57, 58, 48, 51] \<and>
   published (dated_articles ! 0)
     = [50, 48, 50, 52, 24180, 48, 49, 26376, 48, 53, 26085, 32, 48, 57, 58, 48, 51] \<and>
   structured_time (dated_entries ! 1) = Some [2024, 1, 5, 9, 3, 61, 4, 5, 0] \<and>
   one_date (take 6 [2024, 1, 5, 9, 3, 61, 4, 5, 0]) date_format = None \<and>
   published (dated_articles ! 1) = ascii ''Fri, 05 Jan 2024 09:03:61 GMT'' \<and>
   structured_time (dated_entries ! 2) = None \<and>
   entry_published (dated_entries ! 2) = Some (ascii ''yesterday'') \<and>
   published (dated_articles ! 2) = ascii ''yesterday'' \<and>
   structured_time (dated_entries ! 3) = None \<and>
   entry_published (dated_entries ! 3) = None \<and>
   published (dated_articles ! 3) = []"
proof -
  let ?L = "fake_lib dated_entries one_date"
  have p: "parse ?L (request_url ?L tag_LLM) = Inr dated_entries"
    by (simp add: parse_fake)
  have s: "slice_to dated_entries 15 = dated_entries"
    by (simp add: slice_to_def dated_entries_def)
  have n: "length dated_articles = 4"
    by (simp add: dated_articles_def)
  have e0: "structured_time (dated_entries ! 0) = Some [2024, 1, 5, 9, 3, 0, 4, 5, 0]"
    and e1: "structured_time (dated_entries ! 1) = Some [2024, 1, 5, 9, 3, 61, 4, 5, 0]"
    and e2: "structured_time (dated_entries ! 2) = None"
    and e3: "structured_time (dated_entries ! 3) = None"
    and r1: "entry_published (dated_entries ! 1) = Some (ascii ''Fri, 05 Jan 2024 09:03:61 GMT'')"
    and r2: "entry_published (dated_entries ! 2) = Some (ascii ''yesterday'')"
    and r3: "entry_published (dated_entries ! 3) = None"
    by (simp_all add: dated_entries_def structured_time_def plain_entry_def)
  have f0: "one_date (take 6 [2024, 1, 5, 9, 3, 0, 4, 5, 0]) date_format
      = Some [50, 48, 50, 52, 24180, 48, 49, 26376, 48, 53, 26085, 32, 48, 57, 58, 48, 51]"
    and f1: "one_date (take 6 [2024, 1, 5, 9, 3, 61, 4, 5, 0]) date_format = None"
    by (simp_all add: one_date_def)
  have i0: "0 < length dated_articles" and i1: "1 < length dated_articles"
    and i2: "2 < length dated_articles" and i3: "3 < length dated_articles"
    using n by simp_all
  have "published (dated_articles ! 0)
      = [50, 48, 50, 52, 24180, 48, 49, 26376, 48, 53, 26085, 32, 48, 57, 58, 48, 51]"
    using published_derivation [OF fetch_dated p i0] e0 f0 by (simp add: s strftime_fake)
  moreover have "published (dated_articles ! 1) = ascii ''Fri, 05 Jan 2024 09:03:61 GMT''"
    using published_derivation [OF fetch_dated p i1] e1 f1 r1 by (simp add: s strftime_fake)
  moreover have "published (dated_articles ! 2) = ascii ''yesterday''"
    using published_derivation [OF fetch_dated p i2] e2 r2 by (simp add: s)
  moreover have "published (dated_articles ! 3) = []"
    using published_derivation [OF fetch_dated p i3] e3 r3 by (simp add: s)
  ultimately show ?thesis
    using e0 e1 e2 e3 r2 r3 f0 f1 by (simp add: fetch_dated)
qed

lemma card_loop_nth:
  "i < length as \<Longrightarrow>
     card_loop k as ! i = (if even (k + i) then Left else Right, card (as ! i))"
proof (induction as arbitrary: k i)
  case Nil
  then show ?case by simp
next
  case (Cons a as)
  show ?case
  proof (cases i)
    case 0
    then show ?thesis by (simp add: even_iff_mod_2_eq_zero)
  next
    case (Suc j)
    with Cons.prems have "j < length as" by simp
    from Cons.IH [OF this, of "Suc k"] Suc show ?thesis by simp
  qed
qed

lemma length_card_loop: "length (card_loop k as) = length as"
  by (induction as arbitrary: k) simp_all

text \<open>
  C9: when there are articles, the page shows one card for each, in order, and the card at
  position \<open>i\<close> is written to the left column when \<open>i\<close> is even and to the right column when
  \<open>i\<close> is odd.
\<close>

theorem card_columns:
  assumes "i < length articles"
  shows "\<exists>cards. render articles = Cards cards \<and> length cards = length articles \<and>
           cards ! i = (if even i then Left else Right, card (articles ! i))"
proof -
  from assms have "articles \<noteq> []" by auto
  then have "render articles = Cards (card_loop 0 articles)"
    by (simp add: render_def)
  with assms show ?thesis
    by (simp add: length_card_loop card_loop_nth)
qed

theorem card_columns_witness:
  "(1::nat) < length two_articles \<and>
   render two_articles
     = Cards [(Left, card (plain_article ''first'')), (Right, card (plain_article ''second''))]"
proof -
  have h: "(1::nat) < length two_articles"
    by (simp add: two_articles_def)
  from card_columns [OF h] obtain cards
    where "render two_articles = Cards cards" by blast
  moreover have "render two_articles = Cards (card_loop 0 two_articles)"
    by (simp add: render_def two_articles_def)
  ultimately show ?thesis
    using h by (simp add: two_articles_def)
qed


lemma fetch_odd_link:
  "fetch_news (fake_lib [odd_link_entry] no_dates) tag_LLM 15
     = Inr ([odd_link_article], request_url (fake_lib [odd_link_entry] no_dates) tag_LLM)"
  by (simp add: fetch_fake slice_to_def odd_link_entry_def odd_link_article_def loop_body_def
      fake_defs published_of_def structured_time_def raw_published_def safe_summary_def
      summary_text_def raw_summary_def strip_def escape_def replace_def ascii_def
      AMP_def LT_def GT_def DQUOTE_def SQUOTE_def)

text \<open>
  C10: the link of each article is the link of its entry, character for character, and the
  card puts it as it is between the quotes of the \<open>href\<close> attribute.
\<close>

theorem link_verbatim:
  assumes "fetch_news lib query num = Inr (articles, url)"
    and "parse lib (request_url lib query) = Inr entries"
    and "i < length articles"
  shows \<open>entry_link (slice_to entries num ! i) = Some (link (articles ! i)) \<and>
         (\<exists>pre post. card (articles ! i) =
            pre @ ascii ''    <a href="'' @ link (articles ! i) @ ascii ''" target="_blank">''
              @ post)\<close>
proof -
  from fetch_news_nth(2) [OF assms]
  have "entry_link (slice_to entries num ! i) = Some (link (articles ! i))"
    by (auto simp: loop_body_Inr)
  moreover have \<open>card (articles ! i) =
      (ascii ''<div class="news-card">''
       @ ascii ''  <div class="card-title">'' @ title (articles ! i) @ ascii ''</div>''
       @ ascii ''  <div class="card-date">'' @ [128467, 65039, 32] @ published (articles ! i)
       @ ascii ''</div>''
       @ ascii ''  <div class="card-summary">'' @ summary (articles ! i) @ ascii ''</div>''
       @ ascii ''  <div class="card-link">'')
      @ ascii ''    <a href="'' @ link (articles ! i) @ ascii ''" target="_blank">''
      @ ([128214, 32, 20803, 35352, 20107, 12434, 35501, 12416] @ ascii ''</a>''
         @ ascii ''  </div>'' @ ascii ''</div>'')\<close>
    by (simp add: card_def)
  ultimately show ?thesis by blast
qed

theorem link_verbatim_witness:
  \<open>fetch_news (fake_lib [odd_link_entry] no_dates) tag_LLM 15
     = Inr ([odd_link_article], request_url (fake_lib [odd_link_entry] no_dates) tag_LLM) \<and>
   entry_link odd_link_entry = Some (ascii ''x" onclick="f(1)&<'') \<and>
   link odd_link_article = ascii ''x" onclick="f(1)&<''\<close>
proof -
  let ?L = "fake_lib [odd_link_entry] no_dates"
  have p: "parse ?L (request_url ?L tag_LLM) = Inr [odd_link_entry]"
    by (simp add: parse_fake)
  have i: "0 < length [odd_link_article]" by simp
  have e: \<open>entry_link odd_link_entry = Some (ascii ''x" onclick="f(1)&<'')\<close>
    by (simp add: odd_link_entry_def plain_entry_def)
  from link_verbatim [OF fetch_odd_link p i]
  have "entry_link (slice_to [odd_link_entry] 15 ! 0) = Some (link odd_link_article)"
    by simp
  with e show ?thesis
    by (simp add: fetch_odd_link slice_to_def)
qed

lemma tag_loop_LLM:
  assumes "\<forall>tag. button w tag \<longleftrightarrow> tag = tag_LLM"
  shows "tag_loop w quick_tags st = Some (st(''quick_query'' \<mapsto> tag_LLM))"
proof -
  have "ascii ''ChatGPT'' \<noteq> tag_LLM" and "[29983, 25104, 65, 73] \<noteq> tag_LLM"
    by (simp_all add: tag_LLM_def ascii_def)
  with assms show ?thesis
    by (simp add: quick_tags_def)
qed

lemma tag_loop_idle: "\<forall>tag. \<not> button w tag \<Longrightarrow> tag_loop w tags st = None"
  by (induction tags) simp_all

text \<open>
  C8: a run in which the button \<open>LLM\<close> (and no other) reports a press ends in a rerun with
  the label stored; the next run, with no button pressed, takes the label out of the session
  state and hands it to the text field as its value, so that a field showing its value makes
  the fetch use the query \<open>LLM\<close>, whatever the field and the session state held before; and
  the run after that, again with no button pressed, finds nothing stored and hands the field
  the standard query.
\<close>

theorem quick_tag_one_shot:
  assumes "\<forall>tag. button w tag \<longleftrightarrow> tag = tag_LLM"
    and "\<forall>tag. \<not> button w1 tag"
    and "\<forall>tag. \<not> button w2 tag"
    and "text_input w1 tag_LLM = tag_LLM"
  shows "script lib w st = Rerun (st(''quick_query'' \<mapsto> tag_LLM)) \<and>
         script lib w1 (st(''quick_query'' \<mapsto> tag_LLM))
           = Rendered (st(''quick_query'' := None)) tag_LLM (slider w1)
               (main_content lib tag_LLM (slider w1)) \<and>
         script lib w2 (st(''quick_query'' := None))
           = Rendered (st(''quick_query'' := None))
               (text_input w2 (ascii ''Artificial Intelligence'')) (slider w2)
               (main_content lib (text_input w2 (ascii ''Artificial Intelligence'')) (slider w2))"
proof -
  have 1: "script lib w st = Rerun (st(''quick_query'' \<mapsto> tag_LLM))"
    by (cases "st ''quick_query''")
      (simp_all add: script_def pop_def Let_def tag_loop_LLM [OF assms(1)])
  have 2: "script lib w1 (st(''quick_query'' \<mapsto> tag_LLM))
      = Rendered (st(''quick_query'' := None)) tag_LLM (slider w1)
          (main_content lib tag_LLM (slider w1))"
    by (simp add: script_def pop_def Let_def tag_loop_idle [OF assms(2)] assms(4))
  have 3: "script lib w2 (st(''quick_query'' := None))
      = Rendered (st(''quick_query'' := None))
          (text_input w2 (ascii ''Artificial Intelligence'')) (slider w2)
          (main_content lib (text_input w2 (ascii ''Artificial Intelligence'')) (slider w2))"
    by (simp add: script_def pop_def Let_def tag_loop_idle [OF assms(3)])
  from 1 2 3 show ?thesis by simp
qed

theorem quick_tag_one_shot_witness:
  "(\<forall>tag. button press_LLM tag \<longleftrightarrow> tag = tag_LLM) \<and>
   (\<forall>tag. \<not> button idle_widgets tag) \<and>
   text_input idle_widgets tag_LLM = tag_LLM \<and>
   text_input press_LLM tag_LLM = ascii ''old text'' \<and>
   script (fake_lib [] no_dates) press_LLM Map.empty = Rerun [''quick_query'' \<mapsto> tag_LLM] \<and>
   script (fake_lib [] no_dates) idle_widgets [''quick_query'' \<mapsto> tag_LLM]
     = Rendered Map.empty tag_LLM 15 (Inr EmptyState) \<and>
   script (fake_lib [] no_dates) idle_widgets Map.empty
     = Rendered Map.empty (ascii ''Artificial Intelligence'') 15 (Inr EmptyState)"
proof -
  have h1: "\<forall>tag. button press_LLM tag \<longleftrightarrow> tag = tag_LLM"
    by (simp add: press_LLM_def)
  have h2: "\<forall>tag. \<not> button idle_widgets tag"
    by (simp add: idle_widgets_def)
  have h3: "text_input idle_widgets tag_LLM = tag_LLM"
    by (simp add: idle_widgets_def)
  have m: "main_content (fake_lib [] no_dates) q 15 = Inr EmptyState" for q
    by (simp add: main_content_def fetch_fake slice_to_def render_def)
  show ?thesis
    using h1 h2 h3 quick_tag_one_shot [OF h1 h2 h2 h3, of "fake_lib [] no_dates" Map.empty]
    by (simp add: m idle_widgets_def press_LLM_def)
qed

end
